theory Spec2Isabelle
  imports Main
begin

section \<open>Python strings\<close>

text \<open>
  A Python \<open>str\<close> is a sequence of code points. The model covers the code points
  U+0000 to U+00FF: a \<^typ>\<open>char\<close> is one code point, \<^const>\<open>length\<close> is \<open>len\<close>.
  The classification methods of \<open>str\<close> are written out for that range as the Unicode
  database of CPython gives them (the superscript digits are digits, the ordinal
  indicators and the micro sign are lowercase letters, NEL and NBSP are whitespace).
\<close>

definition codepoint :: "char \<Rightarrow> nat" where
  "codepoint c = of_char c"

definition between :: "nat \<Rightarrow> nat \<Rightarrow> nat \<Rightarrow> bool" where
  "between lo hi n = (lo \<le> n \<and> n \<le> hi)"

definition isspace_char :: "char \<Rightarrow> bool" where
  "isspace_char c =
     (let n = codepoint c in between 9 13 n \<or> between 28 32 n \<or> n = 133 \<or> n = 160)"

definition isdigit_char :: "char \<Rightarrow> bool" where
  "isdigit_char c =
     (let n = codepoint c in between 48 57 n \<or> n = 178 \<or> n = 179 \<or> n = 185)"

definition isupper_char :: "char \<Rightarrow> bool" where
  "isupper_char c =
     (let n = codepoint c in between 65 90 n \<or> between 192 214 n \<or> between 216 222 n)"

definition islower_char :: "char \<Rightarrow> bool" where
  "islower_char c =
     (let n = codepoint c in
        between 97 122 n \<or> n = 170 \<or> n = 181 \<or> n = 186 \<or> between 223 246 n \<or> between 248 255 n)"

definition isalpha_char :: "char \<Rightarrow> bool" where
  "isalpha_char c =
     (let n = codepoint c in
        between 65 90 n \<or> between 97 122 n \<or> n = 170 \<or> n = 181 \<or> n = 186 \<or>
        between 192 214 n \<or> between 216 246 n \<or> between 248 255 n)"

definition lower_char :: "char \<Rightarrow> char" where
  "lower_char c = (if isupper_char c then char_of (codepoint c + 32) else c)"

text \<open>\<open>s.isdigit()\<close> and \<open>s.isalpha()\<close>: every character qualifies and there is at least one.\<close>

definition isdigit :: "string \<Rightarrow> bool" where
  "isdigit s = (s \<noteq> [] \<and> list_all isdigit_char s)"

definition isalpha :: "string \<Rightarrow> bool" where
  "isalpha s = (s \<noteq> [] \<and> list_all isalpha_char s)"

text \<open>
  \<open>s.lower()\<close>, \<open>s.lstrip()\<close>, \<open>s.rstrip()\<close>, \<open>s.strip()\<close> and \<open>s.replace(old, new)\<close> for a
  one-character \<open>old\<close>.
\<close>

definition lower :: "string \<Rightarrow> string" where
  "lower s = map lower_char s"

definition lstrip :: "string \<Rightarrow> string" where
  "lstrip s = dropWhile isspace_char s"

definition rstrip :: "string \<Rightarrow> string" where
  "rstrip s = rev (dropWhile isspace_char (rev s))"

definition strip :: "string \<Rightarrow> string" where
  "strip s = rstrip (lstrip s)"

definition replace_char :: "char \<Rightarrow> string \<Rightarrow> string \<Rightarrow> string" where
  "replace_char old new s = concat (map (\<lambda>c. if c = old then new else [c]) s)"

section \<open>Regular expressions of the module \<open>re\<close>\<close>

text \<open>
  The patterns of the program use character sets, concatenation, alternation, \<open>+\<close>,
  a negative lookahead and the anchors \<open>^\<close> and \<open>$\<close>. An item of a set is a literal
  character, a range or the class \<open>\s\<close>.
\<close>

datatype atom = Lit char | Rng char char | WS

fun in_atom :: "char \<Rightarrow> atom \<Rightarrow> bool" where
  "in_atom c (Lit d) = (c = d)"
| "in_atom c (Rng lo hi) = between (codepoint lo) (codepoint hi) (codepoint c)"
| "in_atom c WS = isspace_char c"

definition in_set :: "atom list \<Rightarrow> char \<Rightarrow> bool" where
  "in_set as c = list_ex (in_atom c) as"

datatype regex =
    Set "atom list"
  | Seq regex regex
  | Alt regex regex
  | Plus regex
  | NegLookahead regex
  | Caret
  | Dollar

text \<open>
  \<open>ends r s i\<close> lists the positions at which a match of \<open>r\<close> that starts at position
  \<open>i\<close> of \<open>s\<close> can end, in the order in which the backtracking matcher tries them
  (\<open>+\<close> is greedy: one more repetition comes before stopping). \<open>$\<close> holds at the end of
  the string and just before a newline that ends it, \<open>^\<close> at position 0.
\<close>

function ends :: "regex \<Rightarrow> string \<Rightarrow> nat \<Rightarrow> nat list" where
  "ends (Set as) s i = (if i < length s \<and> in_set as (s ! i) then [Suc i] else [])"
| "ends (Seq a b) s i = concat (map (ends b s) (ends a s i))"
| "ends (Alt a b) s i = ends a s i @ ends b s i"
| "ends (Plus a) s i =
     concat (map (\<lambda>j. (if i < j \<and> j \<le> length s then ends (Plus a) s j else []) @ [j])
                 (ends a s i))"
| "ends (NegLookahead a) s i = (if ends a s i = [] then [i] else [])"
| "ends Caret s i = (if i = 0 then [i] else [])"
| "ends Dollar s i =
     (if i = length s \<or> (Suc i = length s \<and> s ! i = CHR 0x0A) then [i] else [])"
  by pat_completeness auto
termination
  by (relation "measures [\<lambda>(r, s, i). size r, \<lambda>(r, s, i). length s - i]") auto

declare ends.simps [simp del]

text \<open>\<open>re.fullmatch\<close>: some match from position 0 ends at the end of the string.\<close>

definition re_fullmatch :: "regex \<Rightarrow> string \<Rightarrow> bool" where
  "re_fullmatch r s = (length s \<in> set (ends r s 0))"

text \<open>\<open>pattern.search\<close>: some position of the string starts a match.\<close>

definition re_search :: "regex \<Rightarrow> string \<Rightarrow> bool" where
  "re_search r s = list_ex (\<lambda>i. ends r s i \<noteq> []) [0..<Suc (length s)]"

text \<open>
  \<open>re.sub\<close>: scanning from the left, the first match the matcher finds at a position
  is replaced and the scan goes on where it ended; a character no match starts at is
  copied. After an empty match the next match at the same position must be non-empty
  (\<open>adv\<close>).
\<close>

function re_sub_from :: "regex \<Rightarrow> string \<Rightarrow> string \<Rightarrow> nat \<Rightarrow> bool \<Rightarrow> string" where
  "re_sub_from r repl s i adv =
     (case filter (\<lambda>j. (if adv then i < j else i \<le> j) \<and> j \<le> length s) (ends r s i) of
        [] \<Rightarrow> if i < length s then s ! i # re_sub_from r repl s (Suc i) False else []
      | j # _ \<Rightarrow>
          if j = i then repl @ re_sub_from r repl s i True
          else repl @ re_sub_from r repl s j False)"
  by pat_completeness auto
termination
proof (relation "measures [\<lambda>(r, repl, s, i, adv). Suc (length s) - i,
                           \<lambda>(r, repl, s, i, adv). if adv then 0 else 1]", goal_cases)
  case 1
  show ?case by simp
next
  case (2 r repl s i adv)
  then show ?case by auto
next
  case (3 r repl s i adv j js)
  then have "(if adv then i < j else i \<le> j) \<and> j \<le> length s"
    by (metis (mono_tags, lifting) filter_eq_ConsD)
  with 3 show ?case by (auto split: if_splits)
next
  case (4 r repl s i adv j js)
  then have "(if adv then i < j else i \<le> j) \<and> j \<le> length s"
    by (metis (mono_tags, lifting) filter_eq_ConsD)
  with 4 show ?case by (auto split: if_splits)
qed

declare re_sub_from.simps [simp del]

definition re_sub :: "regex \<Rightarrow> string \<Rightarrow> string \<Rightarrow> string" where
  "re_sub r repl s = re_sub_from r repl s 0 False"

section \<open>The field validators of \<open>UserCreate\<close>\<close>

text \<open>
  The messages of the \<open>ValueError\<close>s are fixed literals of the source (Russian text);
  each is a constant here. None of them is built from the validated value.
\<close>

datatype message =
    UsernameCharsMsg      \<comment> \<open>line 41: only Latin letters, digits, dots and underscores,
                               and not made of these fillers only\<close>
  | UsernameDigitsMsg     \<comment> \<open>line 46: the username cannot consist of digits only\<close>
  | NameLettersMsg        \<comment> \<open>line 60: the name must hold letters and spaces only\<close>
  | PasswordLengthMsg     \<comment> \<open>line 67: at least 8 characters\<close>
  | PasswordDigitMsg      \<comment> \<open>line 71: at least one digit\<close>
  | PasswordUpperMsg      \<comment> \<open>line 75: at least one uppercase letter\<close>
  | PasswordLowerMsg      \<comment> \<open>line 79: at least one lowercase letter\<close>
  | PasswordSpecialMsg    \<comment> \<open>line 84: at least one special character of the listed ones\<close>
  | RoleMsg               \<comment> \<open>line 92: the role must be one of user, admin\<close>

datatype exn = ValueError message | AttributeError

text \<open>The pattern of line 39: \<open>^(?!(\.+_+|_+\.+)$)[A-Za-z0-9._]+$\<close>.\<close>

definition username_re :: regex where
  "username_re =
     Seq Caret
    (Seq (NegLookahead
           (Seq (Alt (Seq (Plus (Set [Lit CHR ''.''])) (Plus (Set [Lit CHR ''_''])))
                     (Seq (Plus (Set [Lit CHR ''_''])) (Plus (Set [Lit CHR ''.'']))))
                Dollar))
    (Seq (Plus (Set [Rng CHR ''A'' CHR ''Z'', Rng CHR ''a'' CHR ''z'', Rng CHR ''0'' CHR ''9'',
                     Lit CHR ''.'', Lit CHR ''_'']))
         Dollar))"

definition validate_username :: "string \<Rightarrow> exn + string" where
  "validate_username v =
     (if \<not> re_fullmatch username_re v then Inl (ValueError UsernameCharsMsg)
      else if isdigit v then Inl (ValueError UsernameDigitsMsg)
      else Inr v)"

text \<open>The pattern of line 56: \<open>\s+\<close>.\<close>

definition whitespace_re :: regex where
  "whitespace_re = Plus (Set [WS])"

definition validate_name :: "string option \<Rightarrow> exn + string option" where
  "validate_name v =
     (case v of
        None \<Rightarrow> Inr None
      | Some s \<Rightarrow>
          (let normalized_name = re_sub whitespace_re '' '' (strip s) in
           if \<not> isalpha (replace_char CHR '' '' [] normalized_name)
           then Inl (ValueError NameLettersMsg)
           else Inr (Some normalized_name)))"

text \<open>
  The pattern of line 82, \<open>[@_!#$%^&*()<>?/\|}{~:]\<close>: the string literal keeps the
  backslash, and inside the set \<open>\|\<close> is the escaped character \<open>|\<close>, so the set holds
  \<open>|\<close> and no backslash.
\<close>

definition special_chars :: regex where
  "special_chars =
     Set [Lit CHR ''@'', Lit CHR ''_'', Lit CHR ''!'', Lit CHR ''#'', Lit CHR ''$'',
          Lit CHR ''%'', Lit CHR ''^'', Lit CHR ''&'', Lit CHR ''*'', Lit CHR ''('',
          Lit CHR '')'', Lit CHR ''<'', Lit CHR ''>'', Lit CHR ''?'', Lit CHR ''/'',
          Lit CHR ''|'', Lit CHR ''}'', Lit CHR ''{'', Lit CHR ''~'', Lit CHR '':'']"

definition validate_password :: "string \<Rightarrow> exn + string" where
  "validate_password v =
     (if length v < 8 then Inl (ValueError PasswordLengthMsg)
      else if \<not> list_ex isdigit_char v then Inl (ValueError PasswordDigitMsg)
      else if \<not> list_ex isupper_char v then Inl (ValueError PasswordUpperMsg)
      else if \<not> list_ex islower_char v then Inl (ValueError PasswordLowerMsg)
      else if \<not> re_search special_chars v then Inl (ValueError PasswordSpecialMsg)
      else Inr v)"

text \<open>
  \<open>validate_role\<close> calls \<open>v.lower()\<close> first: on \<open>None\<close> the attribute lookup raises
  \<open>AttributeError\<close>.
\<close>

definition allowed_roles :: "string list" where
  "allowed_roles = [''user'', ''admin'']"

definition validate_role :: "string option \<Rightarrow> exn + string" where
  "validate_role v =
     (case v of
        None \<Rightarrow> Inl AttributeError
      | Some s \<Rightarrow>
          if lower s \<notin> set allowed_roles then Inl (ValueError RoleMsg)
          else Inr (lower s))"

section \<open>The model \<open>UserCreate\<close>\<close>

text \<open>
  A key of the request body is absent, \<open>null\<close> or carries a value of the field's JSON
  type. pydantic validates the fields in the order of their declaration: an absent
  field takes its default, which is not validated; a present one goes through the
  check of its type, the constraints of its \<open>Field\<close> and then its \<open>field_validator\<close>.
  A \<open>ValueError\<close> of a validator becomes an error of the field; any other exception
  leaves the validation as it is. With an error of a field pydantic records the input
  that was rejected: the value of the key, or the whole body for a key that is missing.
\<close>

datatype 'a supplied = Absent | Null | Value 'a

datatype field_error =
    Missing | StringType | StringTooShort | StringTooLong
  | GreaterThanEqual | LessThanEqual | EmailSyntax | IntParsing | ValueErr message

datatype input_value = InString string | InInt int | InNull | InBody

datatype 'a checked = Ok 'a | Invalid field_error input_value | Raised exn

fun after_validator :: "input_value \<Rightarrow> exn + 'a \<Rightarrow> 'a checked" where
  "after_validator i (Inr y) = Ok y"
| "after_validator i (Inl (ValueError m)) = Invalid (ValueErr m) i"
| "after_validator i (Inl e) = Raised e"

definition length_constraints :: "string \<Rightarrow> field_error option" where
  "length_constraints s =
     (if length s < 2 then Some StringTooShort
      else if 50 < length s then Some StringTooLong
      else None)"

text \<open>Line 25: \<open>username: str = Field(default=None, min_length=2, max_length=50)\<close>.\<close>

definition username_field :: "string supplied \<Rightarrow> string option checked" where
  "username_field x =
     (case x of
        Absent \<Rightarrow> Ok None
      | Null \<Rightarrow> Invalid StringType InNull
      | Value s \<Rightarrow>
          (case length_constraints s of
             Some e \<Rightarrow> Invalid e (InString s)
           | None \<Rightarrow> after_validator (InString s) (map_sum id Some (validate_username s))))"

text \<open>Line 26: \<open>password: str\<close>.\<close>

definition password_field :: "string supplied \<Rightarrow> string checked" where
  "password_field x =
     (case x of
        Absent \<Rightarrow> Invalid Missing InBody
      | Null \<Rightarrow> Invalid StringType InNull
      | Value s \<Rightarrow> after_validator (InString s) (validate_password s))"

text \<open>Line 27: \<open>name: Optional[str] = Field(default=None, min_length=2, max_length=50)\<close>.\<close>

definition name_field :: "string supplied \<Rightarrow> string option checked" where
  "name_field x =
     (case x of
        Absent \<Rightarrow> Ok None
      | Null \<Rightarrow> after_validator InNull (validate_name None)
      | Value s \<Rightarrow>
          (case length_constraints s of
             Some e \<Rightarrow> Invalid e (InString s)
           | None \<Rightarrow> after_validator (InString s) (validate_name (Some s))))"

text \<open>Line 28: \<open>age: Optional[int] = Field(default=None, ge=0, le=150)\<close>.\<close>

definition age_field :: "int supplied \<Rightarrow> int option checked" where
  "age_field x =
     (case x of
        Absent \<Rightarrow> Ok None
      | Null \<Rightarrow> Ok None
      | Value n \<Rightarrow>
          if n < 0 then Invalid GreaterThanEqual (InInt n)
          else if 150 < n then Invalid LessThanEqual (InInt n)
          else Ok (Some n))"

text \<open>
  Line 29: \<open>email: Optional[EmailStr] = None\<close>. The syntax check of \<open>EmailStr\<close> is the
  parameter \<open>email_str\<close>: it gives the address as stored, or nothing for a bad address.
\<close>

definition email_field :: "(string \<Rightarrow> string option) \<Rightarrow> string supplied \<Rightarrow> string option checked" where
  "email_field email_str x =
     (case x of
        Absent \<Rightarrow> Ok None
      | Null \<Rightarrow> Ok None
      | Value s \<Rightarrow>
          (case email_str s of
             None \<Rightarrow> Invalid EmailSyntax (InString s)
           | Some e \<Rightarrow> Ok (Some e)))"

text \<open>Line 30: \<open>role: Optional[str] = "user"\<close>.\<close>

definition role_field :: "string supplied \<Rightarrow> string option checked" where
  "role_field x =
     (case x of
        Absent \<Rightarrow> Ok (Some ''user'')
      | Null \<Rightarrow> after_validator InNull (map_sum id Some (validate_role None))
      | Value s \<Rightarrow> after_validator (InString s) (map_sum id Some (validate_role (Some s))))"

record body =
  body_username :: "string supplied"
  body_password :: "string supplied"
  body_name :: "string supplied"
  body_age :: "int supplied"
  body_email :: "string supplied"
  body_role :: "string supplied"

record UserCreate =
  username :: "string option"
  password :: string
  name :: "string option"
  age :: "int option"
  email :: "string option"
  role :: "string option"

text \<open>
  One entry of the list of errors of a failed validation: the field, the error and
  the rejected input.
\<close>

datatype error_entry = ErrorEntry (loc: string) (err: field_error) (rejected: input_value)

datatype built = Accepted UserCreate | Rejected "error_entry list" | Crashed exn

fun raised_of :: "'a checked \<Rightarrow> exn list" where
  "raised_of (Raised e) = [e]"
| "raised_of _ = []"

fun invalid_of :: "string \<Rightarrow> 'a checked \<Rightarrow> error_entry list" where
  "invalid_of f (Invalid e i) = [ErrorEntry f e i]"
| "invalid_of f _ = []"

text \<open>
  The validation of a body: the first exception a validator lets through ends it;
  otherwise the errors of all fields are collected, and a body without errors gives
  the record.
\<close>

definition UserCreate_validate :: "(string \<Rightarrow> string option) \<Rightarrow> body \<Rightarrow> built" where
  "UserCreate_validate email_str b =
     (let u = username_field (body_username b);
          p = password_field (body_password b);
          n = name_field (body_name b);
          a = age_field (body_age b);
          e = email_field email_str (body_email b);
          r = role_field (body_role b)
      in case raised_of u @ raised_of p @ raised_of n @ raised_of a @ raised_of e @ raised_of r of
           x # _ \<Rightarrow> Crashed x
         | [] \<Rightarrow>
            (case (u, p, n, a, e, r) of
               (Ok u', Ok p', Ok n', Ok a', Ok e', Ok r') \<Rightarrow>
                 Accepted \<lparr>username = u', password = p', name = n', age = a', email = e', role = r'\<rparr>
             | _ \<Rightarrow>
                 Rejected (invalid_of ''username'' u @ invalid_of ''password'' p @
                           invalid_of ''name'' n @ invalid_of ''age'' a @
                           invalid_of ''email'' e @ invalid_of ''role'' r)))"

section \<open>The calls to the Postgres service\<close>

text \<open>
  What \<open>str\<close> gives for an integer, as the f-strings of the routes use it for
  \<open>user_id\<close>.
\<close>

function str_nat :: "nat \<Rightarrow> string" where
  "str_nat n =
     (if n < 10 then [char_of (48 + n)]
      else str_nat (n div 10) @ [char_of (48 + n mod 10)])"
  by pat_completeness auto
termination
  by (relation "measure id") auto

declare str_nat.simps [simp del]

definition str_int :: "int \<Rightarrow> string" where
  "str_int i = (if i < 0 then CHR ''-'' # str_nat (nat (- i)) else str_nat (nat i))"

text \<open>
  A response of the service: its status code and what \<open>response.json()\<close> does, either
  the decoded content or an exception \<open>e\<close>, kept as \<open>str(e)\<close>.
\<close>

record response =
  status_code :: int
  json :: "string + string"

text \<open>
  The exceptions of httpx that a request of the client raises. \<open>ConnectTimeout\<close>,
  \<open>ReadTimeout\<close>, \<open>WriteTimeout\<close> and \<open>PoolTimeout\<close> are the subclasses of
  \<open>TimeoutException\<close>: one of them is raised when the timeout of the client (30.0)
  elapses. \<open>ConnectError\<close> is a subclass of \<open>NetworkError\<close> and has no subclass; no
  timeout is a \<open>ConnectError\<close>. \<open>OtherException\<close> stands for every other exception.
\<close>

datatype client_error =
    ConnectError | ConnectTimeout | ReadTimeout | WriteTimeout | PoolTimeout | OtherException

fun is_timeout :: "client_error \<Rightarrow> bool" where
  "is_timeout ConnectTimeout = True"
| "is_timeout ReadTimeout = True"
| "is_timeout WriteTimeout = True"
| "is_timeout PoolTimeout = True"
| "is_timeout _ = False"

datatype request = Request (http_method: string) (url: string) (json_kwarg: "UserCreate option")

text \<open>
  What lies outside the program: what the service and the network answer to a
  request, the text httpx gives an \<open>HTTPStatusError\<close> for a response, and what
  \<open>json.dumps\<close> raises when \<open>JSONResponse\<close> renders a content (it is called with
  \<open>allow_nan=False\<close> and refuses \<open>NaN\<close> and the infinities, which \<open>response.json()\<close>
  accepts): \<open>str(e)\<close> of the exception, or nothing for a content it renders.
\<close>

record world =
  send :: "request \<Rightarrow> client_error + response"
  status_error_str :: "response \<Rightarrow> string"
  dumps_error :: "string \<Rightarrow> string option"

datatype raised_in_try = ClientError client_error | HTTPStatusError string response

text \<open>\<open>response.raise_for_status()\<close>: a response that is not a success (2xx) raises.\<close>

definition is_success :: "response \<Rightarrow> bool" where
  "is_success r = (200 \<le> status_code r \<and> status_code r \<le> 299)"

definition raise_for_status :: "world \<Rightarrow> response \<Rightarrow> raised_in_try + response" where
  "raise_for_status env r =
     (if is_success r then Inr r else Inl (HTTPStatusError (status_error_str env r) r))"

text \<open>The \<open>detail\<close> of an \<open>HTTPException\<close>: a dict with the keys \<open>error\<close> and \<open>type\<close>, or a string.\<close>

datatype detail = Dict (error: string) (type: string) | Str string

datatype http_exception = HTTPException (status: int) (detail: detail)

definition POSTGRES_SERVICE_URL :: string where
  "POSTGRES_SERVICE_URL = ''http://query-service-masha:8003''"

definition handle_postgres_request :: "world \<Rightarrow> request \<Rightarrow> http_exception + response" where
  "handle_postgres_request env req =
     (case (case send env req of
              Inl e \<Rightarrow> Inl (ClientError e)
            | Inr response \<Rightarrow> raise_for_status env response) of
        Inr response \<Rightarrow> Inr response
      | Inl (ClientError ConnectError) \<Rightarrow>
          Inl (HTTPException 503 (Dict ''Postgres service unavailable'' ''connection_error''))
      | Inl (HTTPStatusError str_e response) \<Rightarrow>
          Inl (HTTPException (status_code response)
                 (Dict (''Postgres service returned error: '' @ str_e) ''http_error''))
      | Inl (ClientError _) \<Rightarrow>
          Inl (HTTPException 500 (Dict ''Internal server error'' ''unexpected_error'')))"

datatype json_response = JSONResponse (content: string) (response_status: int)

text \<open>
  The body every route shares: the call, then \<open>JSONResponse\<close> of the decoded content
  with the status of the service. An \<open>HTTPException\<close> is raised again as it is; any
  other exception \<open>e\<close> of the \<open>try\<close> block, from \<open>response.json()\<close> or from the
  constructor of \<open>JSONResponse\<close>, which renders the content, becomes status 500 with
  \<open>detail=str(e)\<close>.
\<close>

definition route :: "world \<Rightarrow> request \<Rightarrow> http_exception + json_response" where
  "route env req =
     (case handle_postgres_request env req of
        Inl he \<Rightarrow> Inl he
      | Inr postgres_response \<Rightarrow>
          (case json postgres_response of
             Inl str_e \<Rightarrow> Inl (HTTPException 500 (Str str_e))
           | Inr c \<Rightarrow>
               (case dumps_error env c of
                  Some str_e \<Rightarrow> Inl (HTTPException 500 (Str str_e))
                | None \<Rightarrow> Inr (JSONResponse c (status_code postgres_response)))))"

definition add_user :: "world \<Rightarrow> UserCreate \<Rightarrow> http_exception + json_response" where
  "add_user env user_data =
     route env (Request ''post'' (POSTGRES_SERVICE_URL @ ''/add_user'') (Some user_data))"

definition delete_user :: "world \<Rightarrow> int \<Rightarrow> http_exception + json_response" where
  "delete_user env user_id =
     route env (Request ''delete'' (POSTGRES_SERVICE_URL @ ''/delete_user/'' @ str_int user_id) None)"

definition get_user :: "world \<Rightarrow> int \<Rightarrow> http_exception + json_response" where
  "get_user env user_id =
     route env (Request ''get'' (POSTGRES_SERVICE_URL @ ''/get_user/'' @ str_int user_id) None)"

definition get_all_users :: "world \<Rightarrow> http_exception + json_response" where
  "get_all_users env =
     route env (Request ''get'' (POSTGRES_SERVICE_URL @ ''/get_all_users'') None)"

section \<open>The endpoints\<close>







section \<open>The rules of the specification\<close>

text \<open>
  The five rules of a password in the order of the specification, each with the
  message of the source for it. The special characters are those the pattern of the
  source accepts.
\<close>

datatype rule = LengthRule | DigitRule | UppercaseRule | LowercaseRule | SpecialRule

definition rule_order :: "rule list" where
  "rule_order = [LengthRule, DigitRule, UppercaseRule, LowercaseRule, SpecialRule]"

definition special_characters :: string where
  "special_characters = ''@_!#$%^&*()<>?/|}{~:''"

fun satisfies :: "rule \<Rightarrow> string \<Rightarrow> bool" where
  "satisfies LengthRule v = (8 \<le> length v)"
| "satisfies DigitRule v = (\<exists>c\<in>set v. isdigit_char c)"
| "satisfies UppercaseRule v = (\<exists>c\<in>set v. isupper_char c)"
| "satisfies LowercaseRule v = (\<exists>c\<in>set v. islower_char c)"
| "satisfies SpecialRule v = (\<exists>c\<in>set v. c \<in> set special_characters)"

fun rule_message :: "rule \<Rightarrow> message" where
  "rule_message LengthRule = PasswordLengthMsg"
| "rule_message DigitRule = PasswordDigitMsg"
| "rule_message UppercaseRule = PasswordUpperMsg"
| "rule_message LowercaseRule = PasswordLowerMsg"
| "rule_message SpecialRule = PasswordSpecialMsg"

definition first_violated :: "string \<Rightarrow> rule option" where
  "first_violated v = find (\<lambda>r. \<not> satisfies r v) rule_order"

text \<open>
  What the pattern of a username allows and what its lookahead excludes, in plain
  terms: the characters of the set, and a run of one character followed by a run of
  another.
\<close>

definition username_char :: "char \<Rightarrow> bool" where
  "username_char c =
     (let n = codepoint c in
        between 65 90 n \<or> between 97 122 n \<or> between 48 57 n \<or> c = CHR ''.'' \<or> c = CHR ''_'')"

definition username_set :: "atom list" where
  "username_set = [Rng CHR ''A'' CHR ''Z'', Rng CHR ''a'' CHR ''z'', Rng CHR ''0'' CHR ''9'',
                   Lit CHR ''.'', Lit CHR ''_'']"

definition two_runs :: "char \<Rightarrow> char \<Rightarrow> string \<Rightarrow> bool" where
  "two_runs a b s = (\<exists>m n. 0 < m \<and> 0 < n \<and> s = replicate m a @ replicate n b)"

text \<open>
  The normal form of a name in the words of the specification: every run of
  whitespace becomes one space, and both ends are trimmed.
\<close>

function collapse_whitespace :: "string \<Rightarrow> string" where
  "collapse_whitespace [] = []"
| "collapse_whitespace (c # cs) =
     (if isspace_char c then CHR '' '' # collapse_whitespace (dropWhile isspace_char cs)
      else c # collapse_whitespace cs)"
  by pat_completeness auto
termination
  by (relation "measure length") (auto simp: length_dropWhile_le less_Suc_eq_le)

definition normalized :: "string \<Rightarrow> string" where
  "normalized s = strip (collapse_whitespace s)"

definition letters_and_spaces :: "string \<Rightarrow> bool" where
  "letters_and_spaces s = list_all (\<lambda>c. isalpha_char c \<or> c = CHR '' '') s"





section \<open>Sample inputs\<close>

definition service_timing_out :: world where
  "service_timing_out =
     \<lparr>send = (\<lambda>_. Inl ReadTimeout), status_error_str = (\<lambda>_. []), dumps_error = (\<lambda>_. None)\<rparr>"

definition service_refusing :: world where
  "service_refusing =
     \<lparr>send = (\<lambda>_. Inl ConnectError), status_error_str = (\<lambda>_. []), dumps_error = (\<lambda>_. None)\<rparr>"

definition service_not_found :: world where
  "service_not_found =
     \<lparr>send = (\<lambda>_. Inr \<lparr>status_code = 404, json = Inr ''{}''\<rparr>),
      status_error_str = (\<lambda>_. ''Client error 404 Not Found''),
      dumps_error = (\<lambda>_. None)\<rparr>"

definition service_unavailable :: world where
  "service_unavailable =
     \<lparr>send = (\<lambda>_. Inr \<lparr>status_code = 503, json = Inr ''{}''\<rparr>),
      status_error_str = (\<lambda>_. ''Server error 503 Service Unavailable''),
      dumps_error = (\<lambda>_. None)\<rparr>"



definition body_without_username :: body where
  "body_without_username =
     \<lparr>body_username = Absent, body_password = Value ''Abcd123!'', body_name = Absent,
      body_age = Absent, body_email = Absent, body_role = Absent\<rparr>"

definition body_with_null_role :: body where
  "body_with_null_role =
     \<lparr>body_username = Value ''john_doe'', body_password = Value ''Abcd123!'', body_name = Absent,
      body_age = Absent, body_email = Absent, body_role = Null\<rparr>"



section \<open>The calls to the Postgres service: error mapping\<close>

lemmas http_defs = handle_postgres_request_def raise_for_status_def is_success_def route_def
  get_user_def add_user_def delete_user_def get_all_users_def



lemma handle_postgres_request_connection_error:
  "(\<exists>s m. handle_postgres_request env req = Inl (HTTPException s (Dict m ''connection_error''))) =
     (send env req = Inl ConnectError)"
  by (auto simp: handle_postgres_request_def raise_for_status_def
           split: sum.splits raised_in_try.splits client_error.splits if_splits)





text \<open>
  C2, as the specification states it, fails: a call that times out raises a
  \<open>TimeoutException\<close> of httpx, which the clause for \<open>ConnectError\<close> does not catch.
  A service whose every call ends in \<open>ReadTimeout\<close> makes \<open>get_all_users\<close> answer
  status 500 with type \<open>unexpected_error\<close>, not 503 with \<open>connection_error\<close>.
\<close>

theorem timeout_not_connection_error:
  "is_timeout ReadTimeout \<and>
   send service_timing_out (Request ''get'' (POSTGRES_SERVICE_URL @ ''/get_all_users'') None) =
     Inl ReadTimeout \<and>
   get_all_users service_timing_out =
     Inl (HTTPException 500 (Dict ''Internal server error'' ''unexpected_error''))"
  by (simp add: http_defs service_timing_out_def)

text \<open>
  C2, amended: a call that times out is surfaced as status 500 with type
  \<open>unexpected_error\<close>. An error of type \<open>connection_error\<close> is surfaced exactly when the
  call raises \<open>ConnectError\<close>, and then it is status 503 with the fixed text: no timeout,
  no other exception and no answer of the service is mapped to that type.
\<close>

theorem timeout_is_unexpected_error:
  "(send env req = Inl e \<and> is_timeout e \<longrightarrow>
      handle_postgres_request env req =
        Inl (HTTPException 500 (Dict ''Internal server error'' ''unexpected_error''))) \<and>
   ((\<exists>s m. handle_postgres_request env req = Inl (HTTPException s (Dict m ''connection_error''))) =
      (send env req = Inl ConnectError)) \<and>
   (send env req = Inl ConnectError \<longrightarrow>
      handle_postgres_request env req =
        Inl (HTTPException 503 (Dict ''Postgres service unavailable'' ''connection_error'')))"
proof -
  have "handle_postgres_request env req =
          Inl (HTTPException 500 (Dict ''Internal server error'' ''unexpected_error''))"
    if "send env req = Inl e" "is_timeout e"
    using that by (cases e) (simp_all add: handle_postgres_request_def)
  moreover have "handle_postgres_request env req =
          Inl (HTTPException 503 (Dict ''Postgres service unavailable'' ''connection_error''))"
    if "send env req = Inl ConnectError"
    using that by (simp add: handle_postgres_request_def)
  ultimately show ?thesis
    using handle_postgres_request_connection_error [of env req] by blast
qed

theorem timeout_is_unexpected_error_witness:
  "send service_timing_out (Request ''get'' [] None) = Inl ReadTimeout \<and>
   is_timeout ReadTimeout \<and>
   handle_postgres_request service_timing_out (Request ''get'' [] None) =
     Inl (HTTPException 500 (Dict ''Internal server error'' ''unexpected_error'')) \<and>
   send service_refusing (Request ''get'' [] None) = Inl ConnectError \<and>
   handle_postgres_request service_refusing (Request ''get'' [] None) =
     Inl (HTTPException 503 (Dict ''Postgres service unavailable'' ''connection_error'')) \<and>
   send service_unavailable (Request ''get'' [] None) \<noteq> Inl ConnectError \<and>
   handle_postgres_request service_unavailable (Request ''get'' [] None) \<noteq>
     Inl (HTTPException 503 (Dict ''Postgres service unavailable'' ''connection_error''))"
proof -
  have t: "send service_timing_out (Request ''get'' [] None) = Inl ReadTimeout"
    by (simp add: service_timing_out_def)
  have c: "send service_refusing (Request ''get'' [] None) = Inl ConnectError"
    by (simp add: service_refusing_def)
  have u: "send service_unavailable (Request ''get'' [] None) \<noteq> Inl ConnectError"
    by (simp add: service_unavailable_def)
  show ?thesis
    using t c u
      timeout_is_unexpected_error [of service_timing_out "Request ''get'' [] None" ReadTimeout]
      timeout_is_unexpected_error [of service_refusing "Request ''get'' [] None"]
      timeout_is_unexpected_error [of service_unavailable "Request ''get'' [] None"]
    by auto
qed

text \<open>
  C5: a response of the service that is not a success (2xx) is surfaced by
  \<open>handle_postgres_request\<close> as an error of type \<open>http_error\<close> with the status code of
  the response, and every route, \<open>get_user\<close> among them, passes that error on
  unchanged: a 404 of the service is a 404 of type \<open>http_error\<close>.
\<close>

theorem http_error_keeps_status:
  "(send env req = Inr r \<and> \<not> is_success r \<longrightarrow>
      handle_postgres_request env req =
        Inl (HTTPException (status_code r)
               (Dict (''Postgres service returned error: '' @ status_error_str env r)
                     ''http_error'')) \<and>
      route env req =
        Inl (HTTPException (status_code r)
               (Dict (''Postgres service returned error: '' @ status_error_str env r)
                     ''http_error''))) \<and>
   (send env (Request ''get'' (POSTGRES_SERVICE_URL @ ''/get_user/'' @ str_int user_id) None) =
      Inr r \<and> \<not> is_success r \<longrightarrow>
      get_user env user_id =
        Inl (HTTPException (status_code r)
               (Dict (''Postgres service returned error: '' @ status_error_str env r)
                     ''http_error'')))"
  by (simp add: handle_postgres_request_def raise_for_status_def route_def get_user_def)

theorem http_error_keeps_status_witness:
  "send service_not_found (Request ''get'' (POSTGRES_SERVICE_URL @ ''/get_user/'' @ str_int 999) None) =
     Inr \<lparr>status_code = 404, json = Inr ''{}''\<rparr> \<and>
   \<not> is_success \<lparr>status_code = 404, json = Inr ''{}''\<rparr> \<and>
   get_user service_not_found 999 =
     Inl (HTTPException 404
            (Dict ''Postgres service returned error: Client error 404 Not Found'' ''http_error''))"
proof -
  have s: "send service_not_found
             (Request ''get'' (POSTGRES_SERVICE_URL @ ''/get_user/'' @ str_int 999) None) =
           Inr \<lparr>status_code = 404, json = Inr ''{}''\<rparr>"
    by (simp add: service_not_found_def)
  have n: "\<not> is_success \<lparr>status_code = 404, json = Inr ''{}''\<rparr>"
    by (simp add: is_success_def)
  have m: "status_error_str service_not_found \<lparr>status_code = 404, json = Inr ''{}''\<rparr> =
           ''Client error 404 Not Found''"
    by (simp add: service_not_found_def)
  show ?thesis
    using s n m
      http_error_keeps_status [of service_not_found "Request ''get'' [] None"
        "\<lparr>status_code = 404, json = Inr ''{}''\<rparr>" 999]
    by simp
qed

section \<open>The model \<open>UserCreate\<close>: which exceptions leave the validation\<close>

lemma validate_username_cases:
  "validate_username s = Inr s \<or> (\<exists>m. validate_username s = Inl (ValueError m))"
  by (simp add: validate_username_def)

lemma validate_password_cases:
  "validate_password s = Inr s \<or> (\<exists>m. validate_password s = Inl (ValueError m))"
  by (simp add: validate_password_def)

lemma validate_name_cases:
  "(\<exists>n. validate_name v = Inr n) \<or> (\<exists>m. validate_name v = Inl (ValueError m))"
  by (simp add: validate_name_def Let_def split: option.splits)

lemma username_field_not_raised: "raised_of (username_field x) = []"
  using validate_username_cases [of "case x of Value s \<Rightarrow> s | _ \<Rightarrow> []"]
  by (auto simp: username_field_def split: supplied.splits option.splits)

lemma password_field_not_raised: "raised_of (password_field x) = []"
  using validate_password_cases [of "case x of Value s \<Rightarrow> s | _ \<Rightarrow> []"]
  by (auto simp: password_field_def split: supplied.splits)

lemma name_field_not_raised: "raised_of (name_field x) = []"
proof (cases x)
  case Absent
  then show ?thesis by (simp add: name_field_def)
next
  case Null
  then show ?thesis by (simp add: name_field_def validate_name_def)
next
  case (Value s)
  then show ?thesis
    using validate_name_cases [of "Some s"]
    by (auto simp: name_field_def split: option.splits)
qed

lemma age_field_not_raised: "raised_of (age_field x) = []"
  by (simp add: age_field_def split: supplied.splits)

lemma email_field_not_raised: "raised_of (email_field f x) = []"
  by (simp add: email_field_def split: supplied.splits option.splits)







text \<open>
  C8: the code does not do what the claim says. The field \<open>username\<close> has the default
  \<open>None\<close>, so a body without it is accepted, and the record carries \<open>None\<close> for it.
\<close>

theorem username_absent_accepted:
  "username_field Absent = Ok None \<and>
   UserCreate_validate email_str body_without_username =
     Accepted \<lparr>username = None, password = ''Abcd123!'', name = None, age = None,
               email = None, role = Some ''user''\<rparr>"
  by (simp add: UserCreate_validate_def body_without_username_def username_field_def
        password_field_def name_field_def age_field_def email_field_def role_field_def
        validate_password_def re_search_def special_chars_def in_set_def ends.simps
        isdigit_char_def isupper_char_def islower_char_def between_def codepoint_def)

text \<open>
  C10: \<open>role\<close> is optional with the default \<open>"user"\<close>, and \<open>validate_role\<close> raises
  \<open>AttributeError\<close> on \<open>None\<close>: a body whose \<open>role\<close> is \<open>null\<close> ends the validation with
  that exception, whatever its other fields hold, and not with a rejection.
\<close>

theorem validate_role_null_raises:
  "validate_role None = Inl AttributeError \<and>
   role_field Absent = Ok (Some ''user'') \<and>
   role_field Null = Raised AttributeError \<and>
   (body_role b = Null \<longrightarrow> UserCreate_validate email_str b = Crashed AttributeError)"
  by (simp add: validate_role_def role_field_def UserCreate_validate_def Let_def
        username_field_not_raised password_field_not_raised name_field_not_raised
        age_field_not_raised email_field_not_raised)

theorem validate_role_null_raises_witness:
  "body_role body_with_null_role = Null \<and>
   UserCreate_validate Some body_with_null_role = Crashed AttributeError"
  using validate_role_null_raises [of body_with_null_role Some]
  by (simp add: body_with_null_role_def)

section \<open>What the matcher computes for the patterns of the program\<close>

lemmas char_defs = isdigit_char_def isupper_char_def islower_char_def isalpha_char_def
  isspace_char_def between_def codepoint_def

lemma re_search_Set: "re_search (Set as) v = (\<exists>c\<in>set v. in_set as c)"
proof
  assume "re_search (Set as) v"
  then obtain i where "i < length v" "in_set as (v ! i)"
    by (auto simp: re_search_def list_ex_iff ends.simps(1) split: if_splits)
  then show "\<exists>c\<in>set v. in_set as c"
    using nth_mem by blast
next
  assume "\<exists>c\<in>set v. in_set as c"
  then obtain i where "i < length v" "in_set as (v ! i)"
    by (auto simp: in_set_conv_nth)
  then show "re_search (Set as) v"
    by (auto simp: re_search_def list_ex_iff ends.simps(1) intro!: bexI [of _ i])
qed

text \<open>A repeated set matches greedily: the ends are those of the longest run, longest first.\<close>

lemma ends_Plus_Set:
  "ends (Plus (Set as)) s i =
     rev [Suc i ..< Suc (i + length (takeWhile (in_set as) (drop i s)))]"
proof (induction "length s - i" arbitrary: i rule: less_induct)
  case less
  show ?case
  proof (cases "i < length s")
    case False
    then show ?thesis by (simp add: ends.simps(1,4))
  next
    case True
    then have d: "drop i s = s ! i # drop (Suc i) s"
      by (simp add: Cons_nth_drop_Suc)
    show ?thesis
    proof (cases "in_set as (s ! i)")
      case False
      then have "takeWhile (in_set as) (drop i s) = []"
        by (simp add: d)
      with False show ?thesis by (simp add: ends.simps(1,4))
    next
      case hit: True
      let ?k = "length (takeWhile (in_set as) (drop (Suc i) s))"
      have "length s - Suc i < length s - i" using True by simp
      then have ih: "ends (Plus (Set as)) s (Suc i) = rev [Suc (Suc i) ..< Suc (Suc i + ?k)]"
        by (rule less)
      have k: "length (takeWhile (in_set as) (drop i s)) = Suc ?k"
        using hit by (simp add: d)
      have "ends (Plus (Set as)) s i = ends (Plus (Set as)) s (Suc i) @ [Suc i]"
        using True hit by (subst ends.simps(4)) (simp add: ends.simps(1))
      also have "\<dots> = rev (Suc i # [Suc (Suc i) ..< Suc (Suc i + ?k)])"
        by (simp only: ih rev.simps)
      also have "Suc i # [Suc (Suc i) ..< Suc (Suc i + ?k)] = [Suc i ..< Suc (Suc i + ?k)]"
        by (rule upt_conv_Cons [symmetric]) simp
      also have "Suc (Suc i + ?k) = Suc (i + length (takeWhile (in_set as) (drop i s)))"
        by (simp only: k add_Suc add_Suc_right)
      finally show ?thesis .
    qed
  qed
qed

lemma in_set_WS: "in_set [WS] = isspace_char"
  by (rule ext) (simp add: in_set_def)

lemma ends_whitespace_re:
  "ends whitespace_re s i =
     rev [Suc i ..< Suc (i + length (takeWhile isspace_char (drop i s)))]"
  by (simp only: whitespace_re_def ends_Plus_Set in_set_WS)


lemma re_sub_from_no_match:
  "filter (\<lambda>j. (if adv then i < j else i \<le> j) \<and> j \<le> length s) (ends r s i) = [] \<Longrightarrow>
     re_sub_from r repl s i adv =
       (if i < length s then s ! i # re_sub_from r repl s (Suc i) False else [])"
  by (subst re_sub_from.simps) (simp only: list.case)

lemma re_sub_from_match:
  "filter (\<lambda>j. (if adv then i < j else i \<le> j) \<and> j \<le> length s) (ends r s i) = j # js \<Longrightarrow>
     j \<noteq> i \<Longrightarrow> re_sub_from r repl s i adv = repl @ re_sub_from r repl s j False"
  by (subst re_sub_from.simps) (simp only: list.case if_False)

lemma re_sub_from_whitespace:
  "i \<le> length s \<Longrightarrow>
     re_sub_from whitespace_re '' '' s i False = collapse_whitespace (drop i s)"
proof (induction "length s - i" arbitrary: i rule: less_induct)
  case less
  show ?case
  proof (cases "i < length s")
    case False
    with less.prems have i: "i = length s" by simp
    have "ends whitespace_re s i = []"
      by (simp add: ends_whitespace_re i)
    then have "re_sub_from whitespace_re '' '' s i False = []"
      using re_sub_from_no_match [of False i s whitespace_re "'' ''"] i by simp
    then show ?thesis by (simp add: i)
  next
    case True
    then have d: "drop i s = s ! i # drop (Suc i) s"
      by (simp add: Cons_nth_drop_Suc)
    show ?thesis
    proof (cases "isspace_char (s ! i)")
      case False
      have ih: "re_sub_from whitespace_re '' '' s (Suc i) False =
                collapse_whitespace (drop (Suc i) s)"
        using True by (intro less) auto
      have "ends whitespace_re s i = []"
        using False by (simp add: ends_whitespace_re d)
      then have "re_sub_from whitespace_re '' '' s i False =
                 s ! i # re_sub_from whitespace_re '' '' s (Suc i) False"
        using re_sub_from_no_match [of False i s whitespace_re "'' ''"] True by simp
      also have "\<dots> = collapse_whitespace (s ! i # drop (Suc i) s)"
        using False by (simp add: ih)
      finally show ?thesis by (simp only: d)
    next
      case ws: True
      let ?k = "length (takeWhile isspace_char (drop (Suc i) s))"
      have k: "length (takeWhile isspace_char (drop i s)) = Suc ?k"
        using ws by (simp add: d)
      have "?k \<le> length (drop (Suc i) s)"
        by (rule length_takeWhile_le)
      then have bound: "Suc (i + ?k) \<le> length s" using True by simp
      have e: "ends whitespace_re s i = Suc (i + ?k) # rev [Suc i ..< Suc (i + ?k)]"
        by (simp only: ends_whitespace_re k) simp
      have f: "filter (\<lambda>j. (if False then i < j else i \<le> j) \<and> j \<le> length s)
                 (ends whitespace_re s i) =
               Suc (i + ?k) #
               filter (\<lambda>j. (if False then i < j else i \<le> j) \<and> j \<le> length s)
                 (rev [Suc i ..< Suc (i + ?k)])"
        using bound by (simp only: e filter.simps) simp
      have ih: "re_sub_from whitespace_re '' '' s (Suc (i + ?k)) False =
                collapse_whitespace (drop (Suc (i + ?k)) s)"
        using True bound by (intro less) auto
      have dw: "dropWhile isspace_char (drop (Suc i) s) = drop (Suc (i + ?k)) s"
        by (simp add: dropWhile_eq_drop add.commute)
      have "re_sub_from whitespace_re '' '' s i False =
            '' '' @ re_sub_from whitespace_re '' '' s (Suc (i + ?k)) False"
        by (rule re_sub_from_match [OF f]) simp
      also have "\<dots> = CHR '' '' # collapse_whitespace (dropWhile isspace_char (drop (Suc i) s))"
        by (simp add: ih dw)
      also have "\<dots> = collapse_whitespace (s ! i # drop (Suc i) s)"
        using ws by simp
      finally show ?thesis by (simp only: d)
    qed
  qed
qed

lemma re_sub_whitespace: "re_sub whitespace_re '' '' s = collapse_whitespace s"
  by (simp add: re_sub_def re_sub_from_whitespace)

section \<open>Passwords\<close>

lemma special_chars_set:
  "special_chars = Set as \<Longrightarrow> in_set as c = (c \<in> set special_characters)"
  by (auto simp: special_chars_def in_set_def special_characters_def)

lemma re_search_special_chars:
  "re_search special_chars v = (\<exists>c\<in>set v. c \<in> set special_characters)"
proof -
  obtain as where as: "special_chars = Set as"
    by (simp add: special_chars_def)
  show ?thesis
    unfolding as re_search_Set using special_chars_set [OF as] by simp
qed

lemma validate_password_first_violated:
  "validate_password v =
     (case first_violated v of
        None \<Rightarrow> Inr v
      | Some r \<Rightarrow> Inl (ValueError (rule_message r)))"
  by (simp add: validate_password_def first_violated_def rule_order_def
        re_search_special_chars list_ex_iff not_less)

lemma validate_password_accepts_iff:
  "validate_password v = Inr v \<longleftrightarrow>
     8 \<le> length v \<and> (\<exists>c\<in>set v. isdigit_char c) \<and> (\<exists>c\<in>set v. isupper_char c) \<and>
     (\<exists>c\<in>set v. islower_char c) \<and> (\<exists>c\<in>set v. c \<in> set special_characters)"
  by (auto simp: validate_password_def re_search_special_chars list_ex_iff)

lemma first_violated_abc: "first_violated ''abc'' = Some LengthRule"
  by (simp add: first_violated_def rule_order_def)

lemma first_violated_Abc12345: "first_violated ''Abc12345'' = Some SpecialRule"
  by (simp add: first_violated_def rule_order_def special_characters_def char_defs)

text \<open>
  C3: the code does not do what the claim says. The backslash is no special character
  for the pattern: a password whose only special character is a backslash is rejected
  for the lack of one. \<open>"Abcd123!"\<close> passes and is returned unchanged.
\<close>

theorem backslash_not_special:
  "validate_password (''Abcd123'' @ [CHR 0x5C]) = Inl (ValueError PasswordSpecialMsg) \<and>
   validate_password ''Abcd123!'' = Inr ''Abcd123!''"
  by (simp add: validate_password_first_violated first_violated_def rule_order_def
        special_characters_def char_defs)

text \<open>
  C4: \<open>validate_password\<close> accepts a password that violates no rule, and for every
  other password it raises one error, that of the first rule violated in the order
  length, digit, uppercase, lowercase, special character. \<open>"abc"\<close> fails with the error
  of the length though it has no digit, uppercase letter or special character either;
  \<open>"Abc12345"\<close> fails with the error of the special character.
\<close>

theorem password_first_violated_rule:
  "validate_password v =
     (case first_violated v of
        None \<Rightarrow> Inr v
      | Some r \<Rightarrow> Inl (ValueError (rule_message r))) \<and>
   validate_password ''abc'' = Inl (ValueError PasswordLengthMsg) \<and>
   \<not> satisfies DigitRule ''abc'' \<and> \<not> satisfies UppercaseRule ''abc'' \<and>
   \<not> satisfies SpecialRule ''abc'' \<and>
   validate_password ''Abc12345'' = Inl (ValueError PasswordSpecialMsg) \<and>
   first_violated ''Abc12345'' = Some SpecialRule"
  by (simp add: validate_password_first_violated first_violated_abc first_violated_Abc12345)
     (simp add: special_characters_def char_defs)






section \<open>Names\<close>

lemma rstrip_Nil: "rstrip [] = []"
  by (simp add: rstrip_def)

lemma rstrip_Cons:
  "rstrip (c # cs) = (if isspace_char c \<and> list_all isspace_char cs then [] else c # rstrip cs)"
  by (auto simp: rstrip_def dropWhile_append list_all_iff)

lemma rstrip_eq_Nil: "rstrip s = [] \<longleftrightarrow> list_all isspace_char s"
  by (induction s) (auto simp: rstrip_Nil rstrip_Cons)

lemma lstrip_rstrip: "lstrip (rstrip s) = rstrip (lstrip s)"
proof (induction s)
  case Nil
  show ?case by (simp add: lstrip_def rstrip_Nil)
next
  case (Cons c cs)
  show ?case
  proof (cases "isspace_char c")
    case True
    have "lstrip (rstrip (c # cs)) = lstrip (rstrip cs)"
      using True rstrip_eq_Nil [of cs] by (auto simp: rstrip_Cons lstrip_def)
    also have "\<dots> = rstrip (lstrip cs)" by (rule Cons.IH)
    also have "lstrip cs = lstrip (c # cs)" using True by (simp add: lstrip_def)
    finally show ?thesis .
  next
    case False
    then show ?thesis by (simp add: rstrip_Cons lstrip_def)
  qed
qed

lemma collapse_head:
  "\<not> isspace_char c \<Longrightarrow> collapse_whitespace (c # cs) = c # collapse_whitespace cs"
  by simp

lemma lstrip_head: "lstrip s = [] \<or> \<not> isspace_char (hd (lstrip s))"
  unfolding lstrip_def by (metis hd_dropWhile)

lemma lstrip_collapse_fixed:
  "t = [] \<or> \<not> isspace_char (hd t) \<Longrightarrow> lstrip (collapse_whitespace t) = collapse_whitespace t"
  by (cases t) (auto simp: lstrip_def)

lemma isspace_space: "isspace_char CHR '' ''"
  by (simp add: isspace_char_def between_def codepoint_def)

lemma lstrip_collapse: "lstrip (collapse_whitespace s) = collapse_whitespace (lstrip s)"
proof (cases s)
  case Nil
  then show ?thesis by (simp add: lstrip_def)
next
  case (Cons c cs)
  show ?thesis
  proof (cases "isspace_char c")
    case True
    have "lstrip (collapse_whitespace s) = lstrip (collapse_whitespace (lstrip cs))"
      using True Cons isspace_space by (simp add: lstrip_def)
    also have "\<dots> = collapse_whitespace (lstrip cs)"
      by (rule lstrip_collapse_fixed) (rule lstrip_head)
    also have "lstrip cs = lstrip s" using True Cons by (simp add: lstrip_def)
    finally show ?thesis .
  next
    case False
    then show ?thesis using Cons by (simp add: lstrip_def)
  qed
qed

lemma collapse_all_space:
  "list_all isspace_char (collapse_whitespace s) \<longleftrightarrow> list_all isspace_char s"
proof (induction s rule: collapse_whitespace.induct)
  case 1
  show ?case by simp
next
  case (2 c cs)
  show ?case
  proof (cases "isspace_char c")
    case True
    have "list_all isspace_char (dropWhile isspace_char cs) \<longleftrightarrow> list_all isspace_char cs"
      by (induction cs) auto
    with True 2 isspace_space show ?thesis by simp
  next
    case False
    then show ?thesis by simp
  qed
qed

lemma rstrip_collapse: "rstrip (collapse_whitespace s) = collapse_whitespace (rstrip s)"
proof (induction s rule: collapse_whitespace.induct)
  case 1
  show ?case by (simp add: rstrip_Nil)
next
  case (2 c cs)
  show ?case
  proof (cases "isspace_char c")
    case True
    note ih = 2(1) [OF True]
    have all: "list_all isspace_char (collapse_whitespace (lstrip cs)) \<longleftrightarrow> list_all isspace_char cs"
      unfolding collapse_all_space lstrip_def by (induction cs) auto
    show ?thesis
    proof (cases "list_all isspace_char cs")
      case allws: True
      then show ?thesis
        using True all isspace_space by (simp add: rstrip_Cons rstrip_Nil lstrip_def)
    next
      case False
      have "rstrip (collapse_whitespace (c # cs)) =
            CHR '' '' # rstrip (collapse_whitespace (lstrip cs))"
        using True False all by (simp add: rstrip_Cons lstrip_def)
      also have "rstrip (collapse_whitespace (lstrip cs)) = collapse_whitespace (rstrip (lstrip cs))"
        using ih by (simp add: lstrip_def)
      also have "rstrip (lstrip cs) = lstrip (rstrip cs)"
        by (rule lstrip_rstrip [symmetric])
      also have "CHR '' '' # collapse_whitespace (lstrip (rstrip cs)) =
                 collapse_whitespace (c # rstrip cs)"
        using True by (simp add: lstrip_def)
      also have "c # rstrip cs = rstrip (c # cs)"
        using False by (simp add: rstrip_Cons)
      finally show ?thesis .
    qed
  next
    case False
    then show ?thesis using 2(2) by (simp add: rstrip_Cons)
  qed
qed

lemma strip_collapse: "strip (collapse_whitespace s) = collapse_whitespace (strip s)"
  by (simp add: strip_def lstrip_collapse rstrip_collapse)

lemma strip_head: "strip s = [] \<or> \<not> isspace_char (hd (strip s))"
proof (cases "lstrip s")
  case Nil
  then show ?thesis by (simp add: strip_def rstrip_Nil)
next
  case (Cons c cs)
  then have "\<not> isspace_char c" using lstrip_head [of s] by simp
  then show ?thesis using Cons by (simp add: strip_def rstrip_Cons)
qed

lemma normalized_name: "re_sub whitespace_re '' '' (strip s) = normalized s"
  by (simp add: re_sub_whitespace normalized_def strip_collapse)

lemma replace_space: "replace_char CHR '' '' [] n = filter (\<lambda>c. c \<noteq> CHR '' '') n"
  by (induction n) (simp_all add: replace_char_def)

lemma isalpha_without_spaces:
  assumes "n = [] \<or> \<not> isspace_char (hd n)"
  shows "isalpha (replace_char CHR '' '' [] n) \<longleftrightarrow> n \<noteq> [] \<and> letters_and_spaces n"
proof (cases n)
  case Nil
  then show ?thesis by (simp add: isalpha_def replace_space)
next
  case (Cons c cs)
  with assms isspace_space have "c \<noteq> CHR '' ''" by auto
  then have "filter (\<lambda>c. c \<noteq> CHR '' '') n \<noteq> []" using Cons by simp
  moreover have "list_all isalpha_char (filter (\<lambda>c. c \<noteq> CHR '' '') n) \<longleftrightarrow> letters_and_spaces n"
    by (auto simp: letters_and_spaces_def list_all_iff)
  ultimately show ?thesis using Cons by (simp add: isalpha_def replace_space)
qed

lemma validate_name_normalized:
  "validate_name (Some s) =
     (if normalized s \<noteq> [] \<and> letters_and_spaces (normalized s)
      then Inr (Some (normalized s))
      else Inl (ValueError NameLettersMsg))"
proof -
  have "normalized s = [] \<or> \<not> isspace_char (hd (normalized s))"
    unfolding normalized_def by (rule strip_head)
  then show ?thesis
    by (simp add: validate_name_def normalized_name isalpha_without_spaces)
qed
lemma normalized_John_Doe: "normalized ''  John   Doe  '' = ''John Doe''"
  by (simp add: normalized_def strip_def lstrip_def rstrip_def char_defs)

lemma normalized_John3: "normalized ''John3'' = ''John3''"
  by (simp add: normalized_def strip_def lstrip_def rstrip_def char_defs)

lemma normalized_spaces: "normalized ''   '' = []"
  by (simp add: normalized_def strip_def lstrip_def rstrip_def char_defs)

text \<open>
  C9, as the specification states it, fails: the normal form of a name of three spaces
  is empty, so it holds nothing but letters and spaces, and the name is rejected.
\<close>

theorem blank_name_rejected:
  "normalized ''   '' = [] \<and> letters_and_spaces (normalized ''   '') \<and>
   validate_name (Some ''   '') = Inl (ValueError NameLettersMsg)"
  by (simp add: validate_name_normalized normalized_spaces letters_and_spaces_def)

text \<open>
  C9, amended: \<open>validate_name\<close> maps \<open>None\<close> to \<open>None\<close>; a present name is accepted exactly
  when its normal form (runs of whitespace collapsed to one space, both ends trimmed)
  is not empty and holds letters and spaces only, and the result is the normal form.
\<close>

theorem validate_name_normal_form:
  "validate_name None = Inr None \<and>
   validate_name (Some s) =
     (if normalized s \<noteq> [] \<and> letters_and_spaces (normalized s)
      then Inr (Some (normalized s))
      else Inl (ValueError NameLettersMsg)) \<and>
   validate_name (Some ''  John   Doe  '') = Inr (Some ''John Doe'') \<and>
   validate_name (Some ''John3'') = Inl (ValueError NameLettersMsg)"
proof -
  have "validate_name None = Inr None" by (simp add: validate_name_def)
  moreover have "validate_name (Some ''  John   Doe  '') = Inr (Some ''John Doe'')"
    by (simp add: validate_name_normalized normalized_John_Doe letters_and_spaces_def char_defs)
  moreover have "validate_name (Some ''John3'') = Inl (ValueError NameLettersMsg)"
    by (simp add: validate_name_normalized normalized_John3 letters_and_spaces_def char_defs)
  ultimately show ?thesis by (simp add: validate_name_normalized)
qed

section \<open>Usernames\<close>

text \<open>The sets of ends of the parts of the username pattern.\<close>

lemma set_ends_Plus_Set:
  "set (ends (Plus (Set as)) s i) =
     {j. i < j \<and> j \<le> i + length (takeWhile (in_set as) (drop i s))}"
  unfolding ends_Plus_Set by auto

lemma set_ends_Seq: "set (ends (Seq a b) s i) = (\<Union>m\<in>set (ends a s i). set (ends b s m))"
  by (simp only: ends.simps(2) set_concat set_map image_image)

lemma set_ends_Seq_Plus:
  "set (ends (Seq (Plus (Set as)) (Plus (Set bs))) s i) =
     {j. \<exists>m. i < m \<and> m \<le> i + length (takeWhile (in_set as) (drop i s)) \<and>
              m < j \<and> j \<le> m + length (takeWhile (in_set bs) (drop m s))}"
  unfolding set_ends_Seq set_ends_Plus_Set by auto

lemma le_length_takeWhile:
  "m \<le> length (takeWhile P xs) \<longleftrightarrow> m \<le> length xs \<and> list_all P (take m xs)"
proof (induction xs arbitrary: m)
  case Nil
  show ?case by simp
next
  case (Cons x xs)
  show ?case by (cases m) (simp_all add: Cons.IH)
qed

lemma in_set_Lit: "in_set [Lit a] = (\<lambda>c. c = a)"
  by (rule ext) (simp add: in_set_def)

lemma all_eq_replicate: "list_all (\<lambda>c. c = a) xs \<longleftrightarrow> xs = replicate (length xs) a"
  by (induction xs) auto

lemma ends_two_runs:
  "j \<in> set (ends (Seq (Plus (Set [Lit a])) (Plus (Set [Lit b]))) s 0) \<longleftrightarrow>
     (\<exists>m. 0 < m \<and> m < j \<and> j \<le> length s \<and>
          take m s = replicate m a \<and> take (j - m) (drop m s) = replicate (j - m) b)"
  (is "?L \<longleftrightarrow> ?R")
proof
  assume ?L
  then obtain m where m: "0 < m" "m \<le> length (takeWhile (\<lambda>c. c = a) s)"
    and j: "m < j" "j \<le> m + length (takeWhile (\<lambda>c. c = b) (drop m s))"
    unfolding set_ends_Seq_Plus in_set_Lit by auto
  from m(2) have ma: "m \<le> length s" "list_all (\<lambda>c. c = a) (take m s)"
    by (simp_all add: le_length_takeWhile)
  from j(2) have "j - m \<le> length (takeWhile (\<lambda>c. c = b) (drop m s))" by simp
  then have jb: "j - m \<le> length (drop m s)" "list_all (\<lambda>c. c = b) (take (j - m) (drop m s))"
    by (simp_all add: le_length_takeWhile)
  have "take m s = replicate m a"
    using ma all_eq_replicate [of a "take m s"] by (simp add: min_def)
  moreover have "take (j - m) (drop m s) = replicate (j - m) b"
    using jb all_eq_replicate [of b "take (j - m) (drop m s)"] by (simp add: min_def)
  moreover have "j \<le> length s" using jb(1) j(1) ma(1) by simp
  ultimately show ?R using m(1) j(1) by blast
next
  assume ?R
  then obtain m where m: "0 < m" "m < j" "j \<le> length s"
    and a: "take m s = replicate m a" and b: "take (j - m) (drop m s) = replicate (j - m) b"
    by blast
  have "list_all (\<lambda>c. c = a) (take m s)" by (simp add: a list_all_iff)
  then have 1: "m \<le> length (takeWhile (\<lambda>c. c = a) s)"
    using m by (simp add: le_length_takeWhile)
  have "list_all (\<lambda>c. c = b) (take (j - m) (drop m s))" by (simp add: b list_all_iff)
  then have "j - m \<le> length (takeWhile (\<lambda>c. c = b) (drop m s))"
    using m by (simp add: le_length_takeWhile)
  then have 2: "j \<le> m + length (takeWhile (\<lambda>c. c = b) (drop m s))" by simp
  show ?L
    unfolding set_ends_Seq_Plus in_set_Lit using m(1,2) 1 2 by auto
qed

lemma ends_two_runs_whole:
  "length s \<in> set (ends (Seq (Plus (Set [Lit a])) (Plus (Set [Lit b]))) s 0) \<longleftrightarrow> two_runs a b s"
proof
  assume "length s \<in> set (ends (Seq (Plus (Set [Lit a])) (Plus (Set [Lit b]))) s 0)"
  then obtain m where m: "0 < m" "m < length s"
    and a: "take m s = replicate m a" and b: "drop m s = replicate (length s - m) b"
    unfolding ends_two_runs by auto
  have "s = replicate m a @ replicate (length s - m) b"
    using a b append_take_drop_id [of m s] by simp
  then show "two_runs a b s"
    unfolding two_runs_def using m by (intro exI [of _ m] exI [of _ "length s - m"]) simp
next
  assume "two_runs a b s"
  then obtain m n where "0 < m" "0 < n" and s: "s = replicate m a @ replicate n b"
    by (auto simp: two_runs_def)
  then show "length s \<in> set (ends (Seq (Plus (Set [Lit a])) (Plus (Set [Lit b]))) s 0)"
    unfolding ends_two_runs by (intro exI [of _ m]) simp
qed

lemma set_ends_Dollar:
  "set (ends Dollar s i) =
     (if i = length s \<or> (Suc i = length s \<and> s ! i = CHR 0x0A) then {i} else {})"
  by (simp add: ends.simps(7))

lemma ends_class_Dollar:
  "length v \<in> set (ends (Seq (Plus (Set as)) Dollar) v 0) \<longleftrightarrow>
     v \<noteq> [] \<and> list_all (in_set as) v"
proof -
  have "length v \<in> set (ends (Seq (Plus (Set as)) Dollar) v 0) \<longleftrightarrow>
        0 < length v \<and> length v \<le> length (takeWhile (in_set as) v)"
    unfolding set_ends_Seq set_ends_Plus_Set set_ends_Dollar by auto
  also have "\<dots> \<longleftrightarrow> v \<noteq> [] \<and> list_all (in_set as) v"
    by (simp add: le_length_takeWhile)
  finally show ?thesis .
qed

lemma in_username_set: "in_set username_set = username_char"
  by (rule ext) (auto simp: username_set_def in_set_def username_char_def codepoint_def)

lemma newline_not_username_char: "\<not> username_char (CHR 0x0A)"
  by (simp add: username_char_def between_def codepoint_def)

lemma two_runs_bound:
  "j \<in> set (ends (Seq (Plus (Set [Lit a])) (Plus (Set [Lit b]))) s 0) \<Longrightarrow> j \<le> length s"
  unfolding ends_two_runs by auto

lemma ends_Alt_Dollar_Nil:
  "ends (Seq (Alt X Y) Dollar) v 0 = [] \<longleftrightarrow>
     (\<forall>j\<in>set (ends X v 0) \<union> set (ends Y v 0). set (ends Dollar v j) = {})"
proof -
  have "set (ends (Seq (Alt X Y) Dollar) v 0) =
        (\<Union>j\<in>set (ends X v 0) \<union> set (ends Y v 0). set (ends Dollar v j))"
    by (simp only: set_ends_Seq ends.simps(3) set_append)
  then have "set (ends (Seq (Alt X Y) Dollar) v 0) = {} \<longleftrightarrow>
        (\<forall>j\<in>set (ends X v 0) \<union> set (ends Y v 0). set (ends Dollar v j) = {})"
    by auto
  then show ?thesis by (simp only: set_empty)
qed

lemma lookahead_Dollar:
  assumes "list_all username_char v"
  shows "ends (Seq (Alt (Seq (Plus (Set [Lit a])) (Plus (Set [Lit b])))
                        (Seq (Plus (Set [Lit b])) (Plus (Set [Lit a])))) Dollar) v 0 = [] \<longleftrightarrow>
         \<not> two_runs a b v \<and> \<not> two_runs b a v"
proof -
  let ?ab = "Seq (Plus (Set [Lit a])) (Plus (Set [Lit b]))"
  let ?ba = "Seq (Plus (Set [Lit b])) (Plus (Set [Lit a]))"
  have nl: "v ! j \<noteq> CHR 0x0A" if "j < length v" for j
  proof
    assume "v ! j = CHR 0x0A"
    moreover have "v ! j \<in> set v" using that by simp
    ultimately have "username_char (CHR 0x0A)" using assms by (auto simp: list_all_iff)
    then show False using newline_not_username_char by simp
  qed
  have d: "set (ends Dollar v j) = (if j = length v then {j} else {})" if "j \<le> length v" for j
    unfolding set_ends_Dollar using nl [of j] that by auto
  have "ends (Seq (Alt ?ab ?ba) Dollar) v 0 = [] \<longleftrightarrow>
        (\<forall>j\<in>set (ends ?ab v 0) \<union> set (ends ?ba v 0). set (ends Dollar v j) = {})"
    by (rule ends_Alt_Dollar_Nil)
  also have "\<dots> \<longleftrightarrow> length v \<notin> set (ends ?ab v 0) \<and> length v \<notin> set (ends ?ba v 0)"
  proof
    assume all: "\<forall>j\<in>set (ends ?ab v 0) \<union> set (ends ?ba v 0). set (ends Dollar v j) = {}"
    have "set (ends Dollar v (length v)) \<noteq> {}" using d [of "length v"] by simp
    with all show "length v \<notin> set (ends ?ab v 0) \<and> length v \<notin> set (ends ?ba v 0)"
      by blast
  next
    assume no: "length v \<notin> set (ends ?ab v 0) \<and> length v \<notin> set (ends ?ba v 0)"
    show "\<forall>j\<in>set (ends ?ab v 0) \<union> set (ends ?ba v 0). set (ends Dollar v j) = {}"
    proof
      fix j
      assume j: "j \<in> set (ends ?ab v 0) \<union> set (ends ?ba v 0)"
      then have "j \<le> length v" using two_runs_bound by blast
      moreover have "j \<noteq> length v" using j no by blast
      ultimately show "set (ends Dollar v j) = {}" using d [of j] by simp
    qed
  qed
  finally show ?thesis by (simp only: ends_two_runs_whole)
qed

lemma username_re_alt:
  "username_re =
     Seq Caret
    (Seq (NegLookahead
           (Seq (Alt (Seq (Plus (Set [Lit CHR ''.''])) (Plus (Set [Lit CHR ''_''])))
                     (Seq (Plus (Set [Lit CHR ''_''])) (Plus (Set [Lit CHR ''.'']))))
                Dollar))
    (Seq (Plus (Set username_set)) Dollar))"
  by (simp add: username_re_def username_set_def)

lemma re_fullmatch_username_re:
  "re_fullmatch username_re v \<longleftrightarrow>
     v \<noteq> [] \<and> list_all username_char v \<and>
     \<not> two_runs CHR ''.'' CHR ''_'' v \<and> \<not> two_runs CHR ''_'' CHR ''.'' v"
proof -
  let ?L = "Seq (Alt (Seq (Plus (Set [Lit CHR ''.''])) (Plus (Set [Lit CHR ''_''])))
                     (Seq (Plus (Set [Lit CHR ''_''])) (Plus (Set [Lit CHR ''.''])))) Dollar"
  let ?B = "Seq (Plus (Set username_set)) Dollar"
  have caret: "set (ends (Seq Caret X) v 0) = set (ends X v 0)" for X
    unfolding set_ends_Seq by (simp add: ends.simps(6))
  have look: "set (ends (Seq (NegLookahead X) Y) v 0) =
              (if ends X v 0 = [] then set (ends Y v 0) else {})" for X Y
    unfolding set_ends_Seq by (simp add: ends.simps(5))
  have "set (ends username_re v 0) = (if ends ?L v 0 = [] then set (ends ?B v 0) else {})"
    by (simp only: username_re_alt caret look)
  then have "re_fullmatch username_re v \<longleftrightarrow>
             ends ?L v 0 = [] \<and> length v \<in> set (ends ?B v 0)"
    by (simp add: re_fullmatch_def)
  also have "\<dots> \<longleftrightarrow> ends ?L v 0 = [] \<and> v \<noteq> [] \<and> list_all username_char v"
    by (simp only: ends_class_Dollar in_username_set)
  also have "\<dots> \<longleftrightarrow> v \<noteq> [] \<and> list_all username_char v \<and>
             \<not> two_runs CHR ''.'' CHR ''_'' v \<and> \<not> two_runs CHR ''_'' CHR ''.'' v"
    using lookahead_Dollar [of v "CHR ''.''" "CHR ''_''"] by blast
  finally show ?thesis .
qed

text \<open>
  What \<open>validate_username\<close> does, in full: the first error is for an empty string, a
  character outside the set, or a run of dots followed by a run of underscores (or the
  reverse); the second is for a string of digits; any other string is returned
  unchanged.
\<close>

theorem validate_username_accepts_iff:
  "validate_username v =
     (if v \<noteq> [] \<and> list_all username_char v \<and>
         \<not> two_runs CHR ''.'' CHR ''_'' v \<and> \<not> two_runs CHR ''_'' CHR ''.'' v
      then (if list_all isdigit_char v then Inl (ValueError UsernameDigitsMsg) else Inr v)
      else Inl (ValueError UsernameCharsMsg))"
  by (simp add: validate_username_def re_fullmatch_username_re isdigit_def)

text \<open>
  C1: the code does not do what the claim says. The lookahead of the pattern excludes
  only a run of dots followed by a run of underscores, or the reverse: \<open>"..."\<close>, \<open>"___"\<close>
  and \<open>"._."\<close> are accepted. A username of digits only is rejected.
\<close>

theorem filler_usernames_accepted:
  "validate_username ''...'' = Inr ''...'' \<and>
   validate_username ''___'' = Inr ''___'' \<and>
   validate_username ''._.'' = Inr ''._.'' \<and>
   validate_username ''._'' = Inl (ValueError UsernameCharsMsg) \<and>
   validate_username ''123'' = Inl (ValueError UsernameDigitsMsg)"
  by (simp add: validate_username_def re_fullmatch_def username_re_def in_set_def
        ends.simps isdigit_def char_defs)

section \<open>Roles\<close>

text \<open>
  A present role is accepted exactly when its lowercase form is \<open>user\<close> or \<open>admin\<close>, and
  the lowercase form is returned: \<open>"ADMIN"\<close> becomes \<open>"admin"\<close>, \<open>"guest"\<close> is rejected.
\<close>

theorem validate_role_lowercase:
  "validate_role (Some s) =
     (if lower s = ''user'' \<or> lower s = ''admin'' then Inr (lower s)
      else Inl (ValueError RoleMsg)) \<and>
   validate_role (Some ''ADMIN'') = Inr ''admin'' \<and>
   validate_role (Some ''guest'') = Inl (ValueError RoleMsg)"
proof -
  have "validate_role (Some ''ADMIN'') = Inr ''admin''" by code_simp
  moreover have "validate_role (Some ''guest'') = Inl (ValueError RoleMsg)" by code_simp
  ultimately show ?thesis by (simp add: validate_role_def allowed_roles_def)
qed

section \<open>The endpoints: what a caller gets\<close>










end
